theory Spec2Isabelle
  imports Complex_Main "HOL-Library.Word"
begin

unbundle bit_operations_syntax

section \<open>Bytes, errors and the outside world\<close>

type_synonym byte = "8 word"
type_synonym bytes = "byte list"

text \<open>
  The exceptions that leave \<^verbatim>\<open>transports.py\<close>: the builtin \<^verbatim>\<open>TimeoutError\<close>,
  the module's own \<^verbatim>\<open>TransportError\<close>, and \<open>IOError\<close> for an exception of the serial
  library that the module lets through unwrapped.
\<close>

datatype error = TimeoutError | TransportError | IOError

text \<open>
  The far end of the line and the wall clock. The pyserial port and the socket are
  external objects; what they do is given by a script. Each entry of \<open>rx\<close> is one
  blocking read of the underlying resource: how long the call blocks, and either the
  bytes it hands back (\<open>Data\<close>, possibly none) or that it raises (\<open>Fails\<close>).
  \<open>tx\<close> lists the byte strings written so far, \<open>clock\<close> is what \<^verbatim>\<open>time.time()\<close>
  returns. Writing to an open resource and the clock reads take no time and succeed.
\<close>

datatype io = Data bytes | Fails

record world =
  clock :: rat
  rx :: "(rat \<times> io) list"
  tx :: "bytes list"

text \<open>
  A call either returns a value, raises, or never returns: a read of the resource
  after the script has ended blocks for ever. Each outcome carries the world it left.
\<close>

datatype 'a outcome = Returns 'a world | Raises error world | Hangs world

section \<open>The transports\<close>

record serial_port =
  baudrate :: int
  read_timeout :: int

record tcp_socket =
  sock_timeout :: int

record base_transport =
  timeout :: int

record serial_transport = base_transport +
  port_name :: string
  port :: "serial_port option"

record tcp_transport = base_transport +
  address :: "string \<times> int"
  socket :: "tcp_socket option"

datatype transport = Serial serial_transport | Tcp tcp_transport

fun self_timeout :: "transport \<Rightarrow> int" where
  "self_timeout (Serial s) = timeout s"
| "self_timeout (Tcp c) = timeout c"

text \<open>One read of the open resource, asking for \<open>chars\<close> bytes.\<close>

definition resource_read :: "nat \<Rightarrow> world \<Rightarrow> io outcome" where
  "resource_read chars w =
     (case rx w of
        [] \<Rightarrow> Hangs w
      | ev # evs \<Rightarrow>
          (case snd ev of
             Data bs \<Rightarrow> Returns (Data (take chars bs)) (w\<lparr>clock := clock w + fst ev, rx := evs\<rparr>)
           | Fails \<Rightarrow> Returns Fails (w\<lparr>clock := clock w + fst ev, rx := evs\<rparr>)))"

definition resource_write :: "bytes \<Rightarrow> world \<Rightarrow> world" where
  "resource_write data w = w\<lparr>tx := tx w @ [data]\<rparr>"

subsection \<open>SerialTransport\<close>

definition serial_disconnect :: "serial_transport \<Rightarrow> world \<Rightarrow> serial_transport outcome" where
  "serial_disconnect self w =
     (case port self of
        None \<Rightarrow> Raises TransportError w
      | Some p \<Rightarrow> Returns (self\<lparr>port := None\<rparr>) w)"

definition serial_send :: "serial_transport \<Rightarrow> bytes \<Rightarrow> world \<Rightarrow> unit outcome" where
  "serial_send self data w =
     (case port self of
        None \<Rightarrow> Raises TransportError w
      | Some p \<Rightarrow> Returns () (resource_write data w))"

definition serial_recv :: "serial_transport \<Rightarrow> nat \<Rightarrow> world \<Rightarrow> bytes outcome" where
  "serial_recv self chars w =
     (case port self of
        None \<Rightarrow> Raises TransportError w
      | Some p \<Rightarrow>
          (case resource_read chars w of
             Hangs w' \<Rightarrow> Hangs w'
           | Raises e w' \<Rightarrow> Raises e w'
           | Returns r w' \<Rightarrow>
               (case r of Data bs \<Rightarrow> Returns bs w' | Fails \<Rightarrow> Raises IOError w')))"

definition serial_switch_baudrate ::
  "serial_transport \<Rightarrow> int \<Rightarrow> world \<Rightarrow> serial_transport outcome" where
  "serial_switch_baudrate self baud w =
     (case port self of
        None \<Rightarrow> Raises TransportError w
      | Some p \<Rightarrow>
          Returns (self\<lparr>port := Some \<lparr>baudrate = baud, read_timeout = timeout self\<rparr>\<rparr>) w)"

subsection \<open>TcpTransport\<close>

definition get_socket :: "int \<Rightarrow> tcp_socket" where
  "get_socket t = \<lparr>sock_timeout = t\<rparr>"

definition tcp_init :: "string \<times> int \<Rightarrow> int \<Rightarrow> tcp_transport" where
  "tcp_init addr t = \<lparr>timeout = t, address = addr, socket = Some (get_socket t)\<rparr>"

definition tcp_disconnect :: "tcp_transport \<Rightarrow> world \<Rightarrow> tcp_transport outcome" where
  "tcp_disconnect self w =
     (case socket self of
        None \<Rightarrow> Raises TransportError w
      | Some s \<Rightarrow> Returns (self\<lparr>socket := None\<rparr>) w)"

definition tcp_send :: "tcp_transport \<Rightarrow> bytes \<Rightarrow> world \<Rightarrow> unit outcome" where
  "tcp_send self data w =
     (case socket self of
        None \<Rightarrow> Raises TransportError w
      | Some s \<Rightarrow> Returns () (resource_write data w))"

definition tcp_recv :: "tcp_transport \<Rightarrow> nat \<Rightarrow> world \<Rightarrow> bytes outcome" where
  "tcp_recv self chars w =
     (case socket self of
        None \<Rightarrow> Raises TransportError w
      | Some s \<Rightarrow>
          (case resource_read chars w of
             Hangs w' \<Rightarrow> Hangs w'
           | Raises e w' \<Rightarrow> Raises e w'
           | Returns r w' \<Rightarrow>
               (case r of Data bs \<Rightarrow> Returns bs w' | Fails \<Rightarrow> Raises TransportError w')))"

definition tcp_switch_baudrate :: "tcp_transport \<Rightarrow> int \<Rightarrow> world \<Rightarrow> tcp_transport outcome" where
  "tcp_switch_baudrate self baud w = Returns self w"

subsection \<open>Dispatch of the methods of BaseTransport\<close>

fun send :: "transport \<Rightarrow> bytes \<Rightarrow> world \<Rightarrow> unit outcome" where
  "send (Serial s) data w = serial_send s data w"
| "send (Tcp c) data w = tcp_send c data w"

fun recv :: "transport \<Rightarrow> nat \<Rightarrow> world \<Rightarrow> bytes outcome" where
  "recv (Serial s) chars w = serial_recv s chars w"
| "recv (Tcp c) chars w = tcp_recv c chars w"

fun disconnect :: "transport \<Rightarrow> world \<Rightarrow> transport outcome" where
  "disconnect (Serial s) w =
     (case serial_disconnect s w of
        Returns s' w' \<Rightarrow> Returns (Serial s') w'
      | Raises e w' \<Rightarrow> Raises e w'
      | Hangs w' \<Rightarrow> Hangs w')"
| "disconnect (Tcp c) w =
     (case tcp_disconnect c w of
        Returns c' w' \<Rightarrow> Returns (Tcp c') w'
      | Raises e w' \<Rightarrow> Raises e w'
      | Hangs w' \<Rightarrow> Hangs w')"

fun switch_baudrate :: "transport \<Rightarrow> int \<Rightarrow> world \<Rightarrow> transport outcome" where
  "switch_baudrate (Serial s) baud w =
     (case serial_switch_baudrate s baud w of
        Returns s' w' \<Rightarrow> Returns (Serial s') w'
      | Raises e w' \<Rightarrow> Raises e w'
      | Hangs w' \<Rightarrow> Hangs w')"
| "switch_baudrate (Tcp c) baud w =
     (case tcp_switch_baudrate c baud w of
        Returns c' w' \<Rightarrow> Returns (Tcp c') w'
      | Raises e w' \<Rightarrow> Raises e w'
      | Hangs w' \<Rightarrow> Hangs w')"

text \<open>
  What \<open>recv\<close> raises when the read of the open resource raises: the serial library's
  exception as it is, the socket's wrapped into the transport error.
\<close>

fun recv_failure :: "transport \<Rightarrow> error" where
  "recv_failure (Serial s) = IOError"
| "recv_failure (Tcp c) = TransportError"

text \<open>The resource of a transport is closed when its handle is \<^verbatim>\<open>None\<close>.\<close>

fun closed :: "transport \<Rightarrow> bool" where
  "closed (Serial s) = (port s = None)"
| "closed (Tcp c) = (socket c = None)"

section \<open>Collaborators outside this module\<close>

text \<open>
  \<^verbatim>\<open>utils.bcc_valid\<close>, \<^verbatim>\<open>utils.add_bcc\<close>, \<^verbatim>\<open>utils.ensure_bytes\<close> and the constants
  \<^verbatim>\<open>ACK\<close>, \<^verbatim>\<open>NACK\<close>, \<^verbatim>\<open>LINE_END\<close> (already encoded with \<^verbatim>\<open>constants.ENCODING\<close>)
  are imported by \<^verbatim>\<open>transports.py\<close> from other modules. The read operations take them
  as a parameter.
\<close>

datatype str_or_bytes = Str string | Bytes bytes

record collab =
  bcc_valid :: "bytes \<Rightarrow> bool"
  add_bcc :: "bytes \<Rightarrow> bytes"
  ensure_bytes :: "str_or_bytes \<Rightarrow> bytes"
  ACK :: bytes
  NACK :: bytes
  LINE_END :: bytes

section \<open>BaseTransport.read\<close>

abbreviation SOH :: byte where "SOH \<equiv> 0x01"
abbreviation STX :: byte where "STX \<equiv> 0x02"
abbreviation ETX :: byte where "ETX \<equiv> 0x03"
abbreviation EOT :: byte where "EOT \<equiv> 0x04"

definition start_chars :: "bytes list" where
  "start_chars = [[SOH], [STX]]"

definition end_chars :: "bytes list" where
  "end_chars = [[ETX], [EOT]]"

text \<open>\<^verbatim>\<open>timeout or self.timeout\<close>: \<^verbatim>\<open>None\<close> and \<open>0\<close> are falsy.\<close>

definition py_or :: "int option \<Rightarrow> int \<Rightarrow> int" where
  "py_or a b = (case a of None \<Rightarrow> b | Some x \<Rightarrow> if x = 0 then b else x)"

text \<open>
  The local variables of \<^verbatim>\<open>read\<close> that the loops change. \<open>in_data\<close> and \<open>start_time\<close>
  are assigned at the top of every pass of the outer loop; the values they are given
  before are never read.
\<close>

record read_vars =
  total_data :: bytes
  packets :: int
  start_char_received :: bool
  start_char :: "bytes option"
  end_char :: "bytes option"
  in_data :: bytes
  start_time :: rat

lemma recv_consumes:
  "recv self chars w = Returns b w' \<Longrightarrow> length (rx w') < length (rx w)"
  by (cases self)
     (auto simp: serial_recv_def tcp_recv_def resource_read_def
           split: option.splits list.splits io.splits)

lemma send_keeps_rx:
  "send self data w = Returns u w' \<Longrightarrow> rx w' = rx w"
  by (cases self)
     (auto simp: serial_send_def tcp_send_def resource_write_def split: option.splits)

text \<open>The inner \<^verbatim>\<open>while True\<close> of \<^verbatim>\<open>read\<close>: one block up to and including its end byte.\<close>

function read_block :: "transport \<Rightarrow> read_vars \<Rightarrow> world \<Rightarrow> read_vars outcome" where
  "read_block self v w =
     (case recv self 1 w of
        Raises e w' \<Rightarrow> Raises e w'
      | Hangs w' \<Rightarrow> Hangs w'
      | Returns b w' \<Rightarrow>
          (let duration = clock w' - start_time v in
           if duration > of_int (self_timeout self) then Raises TimeoutError w'
           else if \<not> start_char_received v then
             (if b \<in> set start_chars
              then read_block self
                     (v\<lparr>in_data := in_data v @ b, start_char_received := True,
                        start_char := Some b\<rparr>) w'
              else read_block self v w')
           else
             (if b \<in> set end_chars
              then Returns (v\<lparr>in_data := in_data v @ b, end_char := Some b\<rparr>) w'
              else read_block self (v\<lparr>in_data := in_data v @ b\<rparr>) w')))"
  by pat_completeness auto
termination
  by (relation "measure (\<lambda>(self, v, w). length (rx w))") (auto dest: recv_consumes)

declare read_block.simps [simp del]

lemma read_block_consumes:
  "read_block self v w = Returns v' w' \<Longrightarrow> length (rx w') < length (rx w)"
proof (induction self v w rule: read_block.induct)
  case (1 self v w)
  from "1.prems" obtain b w1 where r: "recv self 1 w = Returns b w1"
    by (subst (asm) read_block.simps) (auto split: outcome.splits)
  then have lt: "length (rx w1) < length (rx w)"
    by (rule recv_consumes)
  from "1.prems" r have "length (rx w') \<le> length (rx w1)"
    using "1.IH" [OF r refl]
    by (subst (asm) read_block.simps) (auto simp: Let_def split: if_splits dest: less_imp_le)
  with lt show ?case by simp
qed

text \<open>The outer \<^verbatim>\<open>while True\<close> of \<^verbatim>\<open>read\<close>.\<close>

function read_loop :: "collab \<Rightarrow> transport \<Rightarrow> read_vars \<Rightarrow> world \<Rightarrow> bytes outcome" where
  "read_loop cs self v w =
     (case read_block self (v\<lparr>in_data := [], start_time := clock w\<rparr>) w of
        Raises e w1 \<Rightarrow> Raises e w1
      | Hangs w1 \<Rightarrow> Hangs w1
      | Returns v1 w1 \<Rightarrow>
          (case recv self 1 w1 of
             Raises e w2 \<Rightarrow> Raises e w2
           | Hangs w2 \<Rightarrow> Hangs w2
           | Returns bcc w2 \<Rightarrow>
               (let v2 = v1\<lparr>packets := packets v1 + 1, in_data := in_data v1 @ bcc\<rparr> in
                if start_char v2 = Some [SOH]
                then Returns (total_data v2 @ in_data v2) w2
                else if end_char v2 = Some [EOT] then
                  (if \<not> bcc_valid cs (in_data v2) then
                     (case send self (NACK cs) w2 of
                        Raises e w3 \<Rightarrow> Raises e w3
                      | Hangs w3 \<Rightarrow> Hangs w3
                      | Returns u w3 \<Rightarrow> read_loop cs self v2 w3)
                   else
                     (case send self (ACK cs) w2 of
                        Raises e w3 \<Rightarrow> Raises e w3
                      | Hangs w3 \<Rightarrow> Hangs w3
                      | Returns u w3 \<Rightarrow>
                          (let v3 = v2\<lparr>in_data :=
                                        take (length (in_data v2) - 2) (in_data v2) @ LINE_END cs\<rparr>;
                               v4 = (if packets v3 > 1
                                     then v3\<lparr>in_data := drop 1 (in_data v3)\<rparr> else v3);
                               v5 = v4\<lparr>total_data := total_data v4 @ in_data v4\<rparr>
                           in read_loop cs self v5 w3)))
                else if end_char v2 = Some [ETX] then
                  (if \<not> bcc_valid cs (in_data v2) then
                     (case send self (NACK cs) w2 of
                        Raises e w3 \<Rightarrow> Raises e w3
                      | Hangs w3 \<Rightarrow> Hangs w3
                      | Returns u w3 \<Rightarrow> read_loop cs self v2 w3)
                   else
                     (let v3 = (if packets v2 > 1
                                then v2\<lparr>in_data := drop 1 (in_data v2)\<rparr> else v2);
                          v4 = v3\<lparr>total_data := total_data v3 @ in_data v3\<rparr>;
                          v5 = (if packets v4 > 1
                                then v4\<lparr>total_data := add_bcc cs (butlast (total_data v4))\<rparr>
                                else v4)
                      in Returns (total_data v5) w2))
                else read_loop cs self v2 w2)))"
  by pat_completeness auto
termination
  apply (relation "measure (\<lambda>(cs, self, v, w). length (rx w))")
      apply (auto dest!: read_block_consumes recv_consumes send_keeps_rx)
  done

declare read_loop.simps [simp del]

definition read :: "collab \<Rightarrow> transport \<Rightarrow> int option \<Rightarrow> world \<Rightarrow> bytes outcome" where
  "read cs self timeout_arg w =
     (let timeout_local = py_or timeout_arg (self_timeout self)
      in read_loop cs self
           \<lparr>total_data = [], packets = 0, start_char_received = False, start_char = None,
            end_char = None, in_data = [], start_time = 0\<rparr> w)"

section \<open>BaseTransport.simple_read\<close>

function simple_loop ::
  "transport \<Rightarrow> bytes \<Rightarrow> bytes \<Rightarrow> rat \<Rightarrow> bool \<Rightarrow> bytes \<Rightarrow> world \<Rightarrow> bytes outcome" where
  "simple_loop self sc ec t0 received acc w =
     (case recv self 1 w of
        Raises e w' \<Rightarrow> Raises e w'
      | Hangs w' \<Rightarrow> Hangs w'
      | Returns b w' \<Rightarrow>
          (let duration = clock w' - t0 in
           if duration > of_int (self_timeout self) then Raises TimeoutError w'
           else if \<not> received then
             (if b = sc
              then simple_loop self sc ec t0 True (acc @ b) w'
              else simple_loop self sc ec t0 received acc w')
           else
             (if b = ec
              then Returns (acc @ b) w'
              else simple_loop self sc ec t0 received (acc @ b) w')))"
  by pat_completeness auto
termination
  by (relation "measure (\<lambda>(self, sc, ec, t0, received, acc, w). length (rx w))")
     (auto dest: recv_consumes)

declare simple_loop.simps [simp del]

definition simple_read ::
  "collab \<Rightarrow> transport \<Rightarrow> str_or_bytes \<Rightarrow> str_or_bytes \<Rightarrow> int option \<Rightarrow> world \<Rightarrow> bytes outcome" where
  "simple_read cs self start_c end_c timeout_arg w =
     (let sc = ensure_bytes cs start_c;
          ec = ensure_bytes cs end_c;
          timeout_local = py_or timeout_arg (self_timeout self)
      in simple_loop self sc ec (clock w) False [] w)"

section \<open>Inputs of the read operations\<close>

text \<open>
  Modelled from the spec: the Checksum Unit (\<^verbatim>\<open>utils.bcc_valid\<close>, \<^verbatim>\<open>utils.add_bcc\<close>) and
  \<^verbatim>\<open>utils.ensure_bytes\<close> are not in \<^verbatim>\<open>transports.py\<close>. The block check is the exclusive-or
  accumulation of the input bytes; verification recomputes it over all bytes but the last
  and compares with the last; \<open>spec_add_bcc\<close> appends it. \<open>spec_ensure_bytes\<close> encodes a
  string byte per character and hands bytes back as they are. The control replies are
  those of IEC 62056-21: ACK 06, NAK 15, and CR LF as line end.
\<close>

definition calculate_bcc :: "bytes \<Rightarrow> byte" where
  "calculate_bcc bs = fold (XOR) bs 0"

definition spec_bcc_valid :: "bytes \<Rightarrow> bool" where
  "spec_bcc_valid bs = (bs \<noteq> [] \<and> calculate_bcc (butlast bs) = last bs)"

definition spec_add_bcc :: "bytes \<Rightarrow> bytes" where
  "spec_add_bcc bs = bs @ [calculate_bcc bs]"

fun spec_ensure_bytes :: "str_or_bytes \<Rightarrow> bytes" where
  "spec_ensure_bytes (Str s) = map of_char s"
| "spec_ensure_bytes (Bytes b) = b"

definition std :: collab where
  "std = \<lparr>bcc_valid = spec_bcc_valid, add_bcc = spec_add_bcc,
          ensure_bytes = spec_ensure_bytes,
          ACK = [0x06], NACK = [0x15], LINE_END = [0x0D, 0x0A]\<rparr>"

text \<open>Transports to run the operations on: open ones, and closed ones.\<close>

definition serial_open :: "int \<Rightarrow> transport" where
  "serial_open t = Serial \<lparr>timeout = t, port_name = ''/dev/ttyUSB0'',
      port = Some \<lparr>baudrate = 300, read_timeout = t\<rparr>\<rparr>"

definition serial_closed :: "int \<Rightarrow> serial_transport" where
  "serial_closed t = \<lparr>timeout = t, port_name = ''/dev/ttyUSB0'', port = None\<rparr>"

definition tcp_open :: "int \<Rightarrow> tcp_transport" where
  "tcp_open t = tcp_init (''meter'', 4059) t"

definition tcp_closed :: "int \<Rightarrow> tcp_transport" where
  "tcp_closed t = (tcp_open t)\<lparr>socket := None\<rparr>"

text \<open>
  A script in which every read of the resource hands back one byte: each byte comes with
  the time the read waited for it.
\<close>

definition arrive :: "(rat \<times> byte) list \<Rightarrow> (rat \<times> io) list" where
  "arrive tb = map (\<lambda>p. (fst p, Data [snd p])) tb"

text \<open>A script of reads that hand back any number of bytes each.\<close>

definition hand_back :: "(rat \<times> bytes) list \<Rightarrow> (rat \<times> io) list" where
  "hand_back tb = map (\<lambda>p. (fst p, Data (snd p))) tb"

text \<open>
  \<open>in_time T ds\<close>: reads that wait \<open>ds\<close> one after the other all return no later than
  \<open>T\<close> after the first one began.
\<close>

fun in_time :: "rat \<Rightarrow> rat list \<Rightarrow> bool" where
  "in_time T [] = True"
| "in_time T (d # ds) = (d \<le> T \<and> in_time (T - d) ds)"

text \<open>
  One block on the wire, STX first, and how long the read of each of its bytes waits:
  the start byte, the payload bytes, the end byte and the block check byte.
\<close>

record block =
  stx_wait :: rat
  content :: "(rat \<times> byte) list"
  end_wait :: rat
  end_byte :: byte
  bcc_wait :: rat
  bcc :: byte

definition payload :: "block \<Rightarrow> bytes" where
  "payload b = map snd (content b)"

definition wire :: "block \<Rightarrow> bytes" where
  "wire b = STX # payload b @ [end_byte b, bcc b]"

definition script :: "block \<Rightarrow> (rat \<times> io) list" where
  "script b = arrive ((stx_wait b, STX) # content b @ [(end_wait b, end_byte b), (bcc_wait b, bcc b)])"

definition duration :: "block \<Rightarrow> rat" where
  "duration b = stx_wait b + sum_list (map fst (content b)) + end_wait b + bcc_wait b"

definition well_formed :: "rat \<Rightarrow> block \<Rightarrow> bool" where
  "well_formed T b =
     ((\<forall>x \<in> set (payload b). x \<noteq> ETX \<and> x \<noteq> EOT) \<and>
      (end_byte b = ETX \<or> end_byte b = EOT) \<and>
      in_time T (stx_wait b # map fst (content b) @ [end_wait b]))"

text \<open>A block whose bytes each arrive after the same wait.\<close>

definition steady_block :: "rat \<Rightarrow> bytes \<Rightarrow> byte \<Rightarrow> byte \<Rightarrow> block" where
  "steady_block d pl e c =
     \<lparr>stx_wait = d, content = map (Pair d) pl, end_wait = d, end_byte = e,
      bcc_wait = d, bcc = c\<rparr>"

text \<open>The reply a block draws: ACK when its block check is accepted, NACK when not.\<close>

definition reply :: "collab \<Rightarrow> block \<Rightarrow> bytes" where
  "reply cs a = (if bcc_valid cs (wire a) then ACK cs else NACK cs)"

section \<open>Running the loops on a script\<close>

lemmas run_defs = read_def read_loop.simps read_block.simps simple_read_def simple_loop.simps
  std_def serial_open_def arrive_def serial_recv_def serial_send_def resource_read_def
  resource_write_def py_or_def start_chars_def end_chars_def spec_bcc_valid_def
  spec_add_bcc_def calculate_bcc_def

lemmas tcp_run_defs = tcp_open_def tcp_init_def get_socket_def tcp_recv_def tcp_send_def

lemmas block_defs = steady_block_def well_formed_def wire_def payload_def script_def
  duration_def

lemma std_accepts_own_bcc: "bcc_valid std (add_bcc std xs)"
  by (simp add: std_def spec_bcc_valid_def spec_add_bcc_def)


lemma recv_open:
  "\<not> closed self \<Longrightarrow> rx w = (d, Data bs) # rest \<Longrightarrow>
   recv self n w = Returns (take n bs) (w\<lparr>clock := clock w + d, rx := rest\<rparr>)"
  by (cases self) (auto simp: serial_recv_def tcp_recv_def resource_read_def)

lemma recv_fails:
  "\<not> closed self \<Longrightarrow> rx w = (d, Fails) # rest \<Longrightarrow>
   recv self n w = Raises (recv_failure self) (w\<lparr>clock := clock w + d, rx := rest\<rparr>)"
  by (cases self) (auto simp: serial_recv_def tcp_recv_def resource_read_def)

lemma send_open:
  "\<not> closed self \<Longrightarrow> send self data w = Returns () (w\<lparr>tx := tx w @ [data]\<rparr>)"
  by (cases self) (auto simp: serial_send_def tcp_send_def resource_write_def)

lemma not_end_char:
  "x \<noteq> ETX \<Longrightarrow> x \<noteq> EOT \<Longrightarrow> [x] \<notin> set end_chars"
  by (simp add: end_chars_def)

lemma is_end_char:
  "e = ETX \<or> e = EOT \<Longrightarrow> [e] \<in> set end_chars"
  by (auto simp: end_chars_def)

lemma is_start_char:
  "s = SOH \<or> s = STX \<Longrightarrow> [s] \<in> set start_chars"
  by (auto simp: start_chars_def)

lemma read_block_body:
  assumes "\<not> closed self" and "start_char_received v"
    and "\<forall>x \<in> set (map snd tb). x \<noteq> ETX \<and> x \<noteq> EOT"
    and "e = ETX \<or> e = EOT"
    and "in_time (of_int (self_timeout self) - (clock w - start_time v)) (map fst tb @ [d])"
    and "rx w = arrive tb @ (d, Data [e]) # rest"
  shows "read_block self v w =
         Returns (v\<lparr>in_data := in_data v @ map snd tb @ [e], end_char := Some [e]\<rparr>)
                 (w\<lparr>clock := clock w + sum_list (map fst tb) + d, rx := rest\<rparr>)"
  using assms
proof (induction tb arbitrary: v w)
  case Nil
  then show ?case
    by (subst read_block.simps) (simp add: recv_open arrive_def is_end_char)
next
  case (Cons p tb)
  let ?w1 = "w\<lparr>clock := clock w + fst p, rx := arrive tb @ (d, Data [e]) # rest\<rparr>"
  let ?v1 = "v\<lparr>in_data := in_data v @ [snd p]\<rparr>"
  have r: "recv self 1 w = Returns [snd p] ?w1"
    using Cons.prems by (simp add: recv_open arrive_def)
  have slack: "of_int (self_timeout self) - (clock ?w1 - start_time ?v1)
               = of_int (self_timeout self) - (clock w - start_time v) - fst p"
    by simp
  have ok: "\<not> clock w + fst p - start_time v > of_int (self_timeout self)"
    using Cons.prems(5) by (simp add: algebra_simps)
  have step: "read_block self v w = read_block self ?v1 ?w1"
    using Cons.prems r ok by (subst read_block.simps) (simp add: not_end_char)
  have "read_block self ?v1 ?w1 =
        Returns (?v1\<lparr>in_data := in_data ?v1 @ map snd tb @ [e], end_char := Some [e]\<rparr>)
                (?w1\<lparr>clock := clock ?w1 + sum_list (map fst tb) + d, rx := rest\<rparr>)"
    using Cons.prems by (intro Cons.IH) (simp_all only: slack, simp_all)
  with step show ?case by (simp add: algebra_simps)
qed

lemma read_block_skip:
  assumes "\<not> closed self" and "\<not> start_char_received v"
    and "\<forall>p \<in> set jk. take 1 (snd p) \<notin> set start_chars"
    and "in_time (of_int (self_timeout self) - (clock w - start_time v)) (map fst jk)"
    and "rx w = hand_back jk @ rest"
  shows "read_block self v w =
         read_block self v (w\<lparr>clock := clock w + sum_list (map fst jk), rx := rest\<rparr>)"
  using assms
proof (induction jk arbitrary: w)
  case Nil
  then have "w\<lparr>clock := clock w + sum_list (map fst []), rx := rest\<rparr> = w"
    by (cases w) (simp add: hand_back_def)
  then show ?case by simp
next
  case (Cons p jk)
  let ?w1 = "w\<lparr>clock := clock w + fst p, rx := hand_back jk @ rest\<rparr>"
  have r: "recv self 1 w = Returns (take 1 (snd p)) ?w1"
    using Cons.prems by (simp add: recv_open hand_back_def)
  have slack: "of_int (self_timeout self) - (clock ?w1 - start_time v)
               = of_int (self_timeout self) - (clock w - start_time v) - fst p"
    by simp
  have ok: "\<not> clock w + fst p - start_time v > of_int (self_timeout self)"
    using Cons.prems(4) by (simp add: algebra_simps)
  have step: "read_block self v w = read_block self v ?w1"
    using Cons.prems r ok by (subst read_block.simps) simp
  have "read_block self v ?w1 =
        read_block self v (?w1\<lparr>clock := clock ?w1 + sum_list (map fst jk), rx := rest\<rparr>)"
    using Cons.prems by (intro Cons.IH) (simp_all only: slack, simp_all)
  with step show ?case by (simp add: algebra_simps)
qed

lemma read_block_first:
  assumes "\<not> closed self" and "\<not> start_char_received v"
    and "s = SOH \<or> s = STX"
    and "\<forall>x \<in> set (map snd tb). x \<noteq> ETX \<and> x \<noteq> EOT"
    and "e = ETX \<or> e = EOT"
    and "in_time (of_int (self_timeout self) - (clock w - start_time v))
           (d0 # map fst tb @ [d])"
    and "rx w = (d0, Data [s]) # arrive tb @ (d, Data [e]) # rest"
  shows "read_block self v w =
         Returns (v\<lparr>in_data := in_data v @ s # map snd tb @ [e], start_char_received := True,
                    start_char := Some [s], end_char := Some [e]\<rparr>)
                 (w\<lparr>clock := clock w + d0 + sum_list (map fst tb) + d, rx := rest\<rparr>)"
proof -
  let ?w1 = "w\<lparr>clock := clock w + d0, rx := arrive tb @ (d, Data [e]) # rest\<rparr>"
  let ?v1 = "v\<lparr>in_data := in_data v @ [s], start_char_received := True, start_char := Some [s]\<rparr>"
  have r: "recv self 1 w = Returns [s] ?w1"
    using assms by (simp add: recv_open)
  have ok: "\<not> clock w + d0 - start_time v > of_int (self_timeout self)"
    using assms(6) by (simp add: algebra_simps)
  have step: "read_block self v w = read_block self ?v1 ?w1"
    using assms r ok by (subst read_block.simps) (simp add: is_start_char)
  have slack: "of_int (self_timeout self) - (clock ?w1 - start_time ?v1)
               = of_int (self_timeout self) - (clock w - start_time v) - d0"
    by simp
  have "read_block self ?v1 ?w1 =
        Returns (?v1\<lparr>in_data := in_data ?v1 @ map snd tb @ [e], end_char := Some [e]\<rparr>)
                (?w1\<lparr>clock := clock ?w1 + sum_list (map fst tb) + d, rx := rest\<rparr>)"
    using assms by (intro read_block_body) (simp_all only: slack, simp_all)
  with step show ?thesis by (simp add: algebra_simps)
qed


lemma read_block_on_block:
  assumes "\<not> closed self"
    and "start_char_received v \<longrightarrow> start_char v = Some [STX]"
    and "well_formed (of_int (self_timeout self)) b"
    and "rx w = script b @ rest"
  shows "\<exists>v1. read_block self (v\<lparr>in_data := [], start_time := clock w\<rparr>) w =
           Returns v1 (w\<lparr>clock := clock w + stx_wait b + sum_list (map fst (content b))
                                  + end_wait b,
                         rx := (bcc_wait b, Data [bcc b]) # rest\<rparr>) \<and>
         in_data v1 = STX # payload b @ [end_byte b] \<and>
         start_char_received v1 \<and> start_char v1 = Some [STX] \<and>
         end_char v1 = Some [end_byte b] \<and>
         total_data v1 = total_data v \<and> packets v1 = packets v"
proof -
  let ?v0 = "v\<lparr>in_data := [], start_time := clock w\<rparr>"
  let ?rest = "(bcc_wait b, Data [bcc b]) # rest"
  have rxw: "rx w = (stx_wait b, Data [STX]) # arrive (content b)
                    @ (end_wait b, Data [end_byte b]) # ?rest"
    using assms(4) by (simp add: script_def arrive_def)
  have pl: "\<forall>x \<in> set (map snd (content b)). x \<noteq> ETX \<and> x \<noteq> EOT"
    and e: "end_byte b = ETX \<or> end_byte b = EOT"
    and tm: "in_time (of_int (self_timeout self))
               (stx_wait b # map fst (content b) @ [end_wait b])"
    using assms(3) by (simp_all add: well_formed_def payload_def)
  have slack: "of_int (self_timeout self) - (clock w - start_time ?v0)
               = of_int (self_timeout self)"
    by simp
  show ?thesis
  proof (cases "start_char_received v")
    case False
    have "read_block self ?v0 w =
          Returns (?v0\<lparr>in_data := in_data ?v0 @ STX # map snd (content b) @ [end_byte b],
                       start_char_received := True, start_char := Some [STX],
                       end_char := Some [end_byte b]\<rparr>)
                  (w\<lparr>clock := clock w + stx_wait b + sum_list (map fst (content b))
                               + end_wait b, rx := ?rest\<rparr>)"
      using assms(1) False pl e tm rxw
      by (intro read_block_first) (simp_all only: slack, simp_all)
    then show ?thesis by (simp add: payload_def)
  next
    case True
    have rxw': "rx w = arrive ((stx_wait b, STX) # content b)
                       @ (end_wait b, Data [end_byte b]) # ?rest"
      using rxw by (simp add: arrive_def)
    have "read_block self ?v0 w =
          Returns (?v0\<lparr>in_data := in_data ?v0 @ map snd ((stx_wait b, STX) # content b)
                                   @ [end_byte b],
                       end_char := Some [end_byte b]\<rparr>)
                  (w\<lparr>clock := clock w + sum_list (map fst ((stx_wait b, STX) # content b))
                               + end_wait b, rx := ?rest\<rparr>)"
      using assms(1) True pl e tm rxw'
      by (intro read_block_body) (simp_all only: slack, simp_all)
    then show ?thesis using True assms(2) by (simp add: payload_def algebra_simps)
  qed
qed

lemma read_loop_unfold:
  assumes "\<not> closed self"
    and "read_block self (v\<lparr>in_data := [], start_time := clock w\<rparr>) w = Returns v1 w1"
    and "rx w1 = (d, Data [c]) # rest"
    and "start_char v1 = Some [STX]"
    and "w2 = w1\<lparr>clock := clock w1 + d, rx := rest\<rparr>"
    and "v2 = v1\<lparr>packets := packets v1 + 1, in_data := in_data v1 @ [c]\<rparr>"
  shows "read_loop cs self v w =
     (if end_char v1 = Some [EOT] then
        (if \<not> bcc_valid cs (in_data v2)
         then read_loop cs self v2 (w2\<lparr>tx := tx w2 @ [NACK cs]\<rparr>)
         else read_loop cs self
                (v2\<lparr>in_data := (if packets v2 > 1
                                 then drop 1 (take (length (in_data v2) - 2) (in_data v2)
                                              @ LINE_END cs)
                                 else take (length (in_data v2) - 2) (in_data v2)
                                      @ LINE_END cs),
                    total_data := total_data v2 @
                                (if packets v2 > 1
                                 then drop 1 (take (length (in_data v2) - 2) (in_data v2)
                                              @ LINE_END cs)
                                 else take (length (in_data v2) - 2) (in_data v2)
                                      @ LINE_END cs)\<rparr>)
                (w2\<lparr>tx := tx w2 @ [ACK cs]\<rparr>))
      else if end_char v1 = Some [ETX] then
        (if \<not> bcc_valid cs (in_data v2)
         then read_loop cs self v2 (w2\<lparr>tx := tx w2 @ [NACK cs]\<rparr>)
         else Returns (if packets v2 > 1
                       then add_bcc cs (butlast (total_data v2 @ drop 1 (in_data v2)))
                       else total_data v2 @ in_data v2) w2)
      else read_loop cs self v2 w2)"
proof -
  have rc: "recv self 1 w1 = Returns [c] w2"
    using assms(1,3,5) by (simp add: recv_open)
  show ?thesis
    using assms(2,4) rc
    by (subst read_loop.simps)
       (simp add: send_open [OF assms(1)] assms(6) Let_def)
qed

lemma loop_nack:
  assumes "\<not> closed self"
    and "start_char_received v \<longrightarrow> start_char v = Some [STX]"
    and "well_formed (of_int (self_timeout self)) b"
    and "\<not> bcc_valid cs (wire b)"
    and "rx w = script b @ rest"
  shows "\<exists>v'. read_loop cs self v w =
           read_loop cs self v'
             (w\<lparr>clock := clock w + duration b, rx := rest, tx := tx w @ [NACK cs]\<rparr>) \<and>
         start_char_received v' \<and> start_char v' = Some [STX] \<and>
         total_data v' = total_data v \<and> packets v' = packets v + 1"
proof -
  let ?w1 = "w\<lparr>clock := clock w + stx_wait b + sum_list (map fst (content b)) + end_wait b,
                rx := (bcc_wait b, Data [bcc b]) # rest\<rparr>"
  let ?w2 = "?w1\<lparr>clock := clock ?w1 + bcc_wait b, rx := rest\<rparr>"
  from read_block_on_block [OF assms(1,2,3,5)] obtain v1 where
    rb: "read_block self (v\<lparr>in_data := [], start_time := clock w\<rparr>) w = Returns v1 ?w1"
    and v1: "in_data v1 = STX # payload b @ [end_byte b]" "start_char_received v1"
      "start_char v1 = Some [STX]" "end_char v1 = Some [end_byte b]"
      "total_data v1 = total_data v" "packets v1 = packets v"
    by blast
  have e: "end_byte b = ETX \<or> end_byte b = EOT"
    using assms(3) by (simp add: well_formed_def)
  let ?v2 = "v1\<lparr>packets := packets v1 + 1, in_data := in_data v1 @ [bcc b]\<rparr>"
  have w: "?w2\<lparr>tx := tx ?w2 @ [NACK cs]\<rparr> =
           w\<lparr>clock := clock w + duration b, rx := rest, tx := tx w @ [NACK cs]\<rparr>"
    by (simp add: duration_def algebra_simps)
  have "read_loop cs self v w = read_loop cs self ?v2 (?w2\<lparr>tx := tx ?w2 @ [NACK cs]\<rparr>)"
    using e assms(4) v1
    by (subst read_loop_unfold [OF assms(1) rb _ v1(3) refl refl, of "bcc_wait b" "bcc b" rest])
       (auto simp: wire_def)
  then show ?thesis using v1 unfolding w by (intro exI [of _ ?v2]) simp
qed

lemma loop_ack:
  assumes "\<not> closed self"
    and "start_char_received v \<longrightarrow> start_char v = Some [STX]"
    and "well_formed (of_int (self_timeout self)) b"
    and "end_byte b = EOT" and "bcc_valid cs (wire b)"
    and "rx w = script b @ rest"
  shows "\<exists>v'. read_loop cs self v w =
           read_loop cs self v'
             (w\<lparr>clock := clock w + duration b, rx := rest, tx := tx w @ [ACK cs]\<rparr>) \<and>
         start_char_received v' \<and> start_char v' = Some [STX] \<and>
         packets v' = packets v + 1 \<and>
         total_data v' = total_data v @
           (if packets v + 1 > 1 then payload b @ LINE_END cs
            else STX # payload b @ LINE_END cs)"
proof -
  let ?w1 = "w\<lparr>clock := clock w + stx_wait b + sum_list (map fst (content b)) + end_wait b,
                rx := (bcc_wait b, Data [bcc b]) # rest\<rparr>"
  let ?w2 = "?w1\<lparr>clock := clock ?w1 + bcc_wait b, rx := rest\<rparr>"
  from read_block_on_block [OF assms(1,2,3,6)] obtain v1 where
    rb: "read_block self (v\<lparr>in_data := [], start_time := clock w\<rparr>) w = Returns v1 ?w1"
    and v1: "in_data v1 = STX # payload b @ [end_byte b]" "start_char_received v1"
      "start_char v1 = Some [STX]" "end_char v1 = Some [end_byte b]"
      "total_data v1 = total_data v" "packets v1 = packets v"
    by blast
  let ?piece = "if packets v + 1 > 1 then payload b @ LINE_END cs
                else STX # payload b @ LINE_END cs"
  let ?v5 = "v1\<lparr>packets := packets v1 + 1, in_data := ?piece,
                 total_data := total_data v1 @ ?piece\<rparr>"
  have w: "?w2\<lparr>tx := tx ?w2 @ [ACK cs]\<rparr> =
           w\<lparr>clock := clock w + duration b, rx := rest, tx := tx w @ [ACK cs]\<rparr>"
    by (simp add: duration_def algebra_simps)
  have "read_loop cs self v w = read_loop cs self ?v5 (?w2\<lparr>tx := tx ?w2 @ [ACK cs]\<rparr>)"
    using assms(4,5) v1
    by (subst read_loop_unfold [OF assms(1) rb _ v1(3) refl refl, of "bcc_wait b" "bcc b" rest])
       (auto simp: wire_def)
  then show ?thesis using v1 unfolding w by (intro exI [of _ ?v5]) simp
qed

lemma loop_final:
  assumes "\<not> closed self"
    and "start_char_received v \<longrightarrow> start_char v = Some [STX]"
    and "well_formed (of_int (self_timeout self)) b"
    and "end_byte b = ETX" and "bcc_valid cs (wire b)"
    and "rx w = script b @ rest"
  shows "read_loop cs self v w =
         Returns (if packets v + 1 > 1
                  then add_bcc cs (total_data v @ payload b @ [ETX])
                  else total_data v @ wire b)
                 (w\<lparr>clock := clock w + duration b, rx := rest\<rparr>)"
proof -
  let ?w1 = "w\<lparr>clock := clock w + stx_wait b + sum_list (map fst (content b)) + end_wait b,
                rx := (bcc_wait b, Data [bcc b]) # rest\<rparr>"
  let ?w2 = "?w1\<lparr>clock := clock ?w1 + bcc_wait b, rx := rest\<rparr>"
  from read_block_on_block [OF assms(1,2,3,6)] obtain v1 where
    rb: "read_block self (v\<lparr>in_data := [], start_time := clock w\<rparr>) w = Returns v1 ?w1"
    and v1: "in_data v1 = STX # payload b @ [end_byte b]" "start_char_received v1"
      "start_char v1 = Some [STX]" "end_char v1 = Some [end_byte b]"
      "total_data v1 = total_data v" "packets v1 = packets v"
    by blast
  have w: "?w2 = w\<lparr>clock := clock w + duration b, rx := rest\<rparr>"
    by (simp add: duration_def algebra_simps)
  have "read_loop cs self v w =
         Returns (if packets v + 1 > 1
                  then add_bcc cs (total_data v @ payload b @ [ETX])
                  else total_data v @ wire b) ?w2"
    using assms(4,5) v1
    by (subst read_loop_unfold [OF assms(1) rb _ v1(3) refl refl, of "bcc_wait b" "bcc b" rest])
       (auto simp: wire_def butlast_append)
  then show ?thesis unfolding w .
qed


lemma later_blocks:
  assumes "\<not> closed self"
    and "start_char_received v" and "start_char v = Some [STX]" and "1 \<le> packets v"
    and "\<forall>p \<in> set ps. well_formed (of_int (self_timeout self)) p \<and> end_byte p = EOT \<and>
           bcc_valid cs (wire p)"
    and "well_formed (of_int (self_timeout self)) fin"
    and "end_byte fin = ETX" and "bcc_valid cs (wire fin)"
    and "rx w = concat (map script ps) @ script fin @ rest"
  shows "read_loop cs self v w =
         Returns (add_bcc cs (total_data v @ concat (map (\<lambda>p. payload p @ LINE_END cs) ps)
                              @ payload fin @ [ETX]))
                 (w\<lparr>clock := clock w + sum_list (map duration ps) + duration fin,
                    rx := rest, tx := tx w @ replicate (length ps) (ACK cs)\<rparr>)"
  using assms(2,3,4,5,9)
proof (induction ps arbitrary: v w)
  case Nil
  have "read_loop cs self v w =
        Returns (if packets v + 1 > 1
                  then add_bcc cs (total_data v @ payload fin @ [ETX])
                  else total_data v @ wire fin)
                 (w\<lparr>clock := clock w + duration fin, rx := rest\<rparr>)"
    using Nil.prems assms(1,6,7,8) by (intro loop_final) simp_all
  then show ?case using Nil.prems by simp
next
  case (Cons p ps)
  let ?w1 = "w\<lparr>clock := clock w + duration p,
                rx := concat (map script ps) @ script fin @ rest,
                tx := tx w @ [ACK cs]\<rparr>"
  have "\<exists>v'. read_loop cs self v w = read_loop cs self v' ?w1 \<and>
         start_char_received v' \<and> start_char v' = Some [STX] \<and>
         packets v' = packets v + 1 \<and>
         total_data v' = total_data v @
           (if packets v + 1 > 1 then payload p @ LINE_END cs
            else STX # payload p @ LINE_END cs)"
    using Cons.prems assms(1) by (intro loop_ack) simp_all
  then obtain v' where step: "read_loop cs self v w = read_loop cs self v' ?w1"
    and v': "start_char_received v'" "start_char v' = Some [STX]"
      "packets v' = packets v + 1"
      "total_data v' = total_data v @ payload p @ LINE_END cs"
    using Cons.prems(3) by auto
  have "read_loop cs self v' ?w1 =
        Returns (add_bcc cs (total_data v' @ concat (map (\<lambda>p. payload p @ LINE_END cs) ps)
                              @ payload fin @ [ETX]))
                (?w1\<lparr>clock := clock ?w1 + sum_list (map duration ps) + duration fin,
                     rx := rest, tx := tx ?w1 @ replicate (length ps) (ACK cs)\<rparr>)"
    using v' Cons.prems by (intro Cons.IH) simp_all
  with step v' show ?case by (simp add: algebra_simps)
qed

lemma read_block_late:
  assumes "\<not> closed self"
    and "\<forall>x \<in> set (map snd tb). x \<noteq> ETX \<and> x \<noteq> EOT"
    and "in_time (of_int (self_timeout self) - (clock w - start_time v)) (map fst tb)"
    and "of_int (self_timeout self) - (clock w - start_time v) < sum_list (map fst tb) + d"
    and "rx w = arrive tb @ (d, Data bs) # rest"
  shows "read_block self v w =
         Raises TimeoutError (w\<lparr>clock := clock w + sum_list (map fst tb) + d, rx := rest\<rparr>)"
  using assms
proof (induction tb arbitrary: v w)
  case Nil
  then show ?case
    by (subst read_block.simps) (simp add: recv_open arrive_def algebra_simps)
next
  case (Cons p tb)
  let ?w1 = "w\<lparr>clock := clock w + fst p, rx := arrive tb @ (d, Data bs) # rest\<rparr>"
  have r: "recv self 1 w = Returns [snd p] ?w1"
    using Cons.prems by (simp add: recv_open arrive_def)
  have ok: "\<not> clock w + fst p - start_time v > of_int (self_timeout self)"
    using Cons.prems(3) by (simp add: algebra_simps)
  have "\<exists>v'. read_block self v w = read_block self v' ?w1 \<and> start_time v' = start_time v"
  proof (cases "start_char_received v")
    case True
    have "read_block self v w = read_block self (v\<lparr>in_data := in_data v @ [snd p]\<rparr>) ?w1"
      using Cons.prems True r ok by (subst read_block.simps) (simp add: not_end_char)
    then show ?thesis by (intro exI [of _ "v\<lparr>in_data := in_data v @ [snd p]\<rparr>"]) simp
  next
    case False
    show ?thesis
    proof (cases "[snd p] \<in> set start_chars")
      case True
      have "read_block self v w =
            read_block self (v\<lparr>in_data := in_data v @ [snd p], start_char_received := True,
                               start_char := Some [snd p]\<rparr>) ?w1"
        using False True r ok by (subst read_block.simps) simp
      then show ?thesis
        by (intro exI [of _ "v\<lparr>in_data := in_data v @ [snd p], start_char_received := True,
                               start_char := Some [snd p]\<rparr>"]) simp
    next
      case nostart: False
      have "read_block self v w = read_block self v ?w1"
        using False nostart r ok by (subst read_block.simps) simp
      then show ?thesis by (intro exI [of _ v]) simp
    qed
  qed
  then obtain v' where step: "read_block self v w = read_block self v' ?w1"
    and st: "start_time v' = start_time v"
    by blast
  have slack: "of_int (self_timeout self) - (clock ?w1 - start_time v')
               = of_int (self_timeout self) - (clock w - start_time v) - fst p"
    by (simp add: st)
  have "read_block self v' ?w1 =
        Raises TimeoutError (?w1\<lparr>clock := clock ?w1 + sum_list (map fst tb) + d, rx := rest\<rparr>)"
    using Cons.prems by (intro Cons.IH) (simp_all only: slack, simp_all add: algebra_simps)
  with step show ?case by (simp add: algebra_simps)
qed

lemma attempts_pass:
  assumes "\<not> closed self"
    and "start_char_received v \<longrightarrow> start_char v = Some [STX]"
    and "\<forall>a \<in> set as. well_formed (of_int (self_timeout self)) a \<and>
           (\<not> bcc_valid cs (wire a) \<or> end_byte a = EOT)"
    and "rx w = concat (map script as) @ rest"
  shows "\<exists>v'. read_loop cs self v w =
           read_loop cs self v'
             (w\<lparr>clock := clock w + sum_list (map duration as), rx := rest,
                tx := tx w @ map (reply cs) as\<rparr>) \<and>
           (start_char_received v' \<longrightarrow> start_char v' = Some [STX])"
  using assms(2,3,4)
proof (induction as arbitrary: v w)
  case Nil
  then have "w\<lparr>clock := clock w + sum_list (map duration []), rx := rest,
               tx := tx w @ map (reply cs) []\<rparr> = w"
    by (cases w) simp
  with Nil.prems(1) show ?case by (intro exI [of _ v]) simp
next
  case (Cons a as)
  let ?rest = "concat (map script as) @ rest"
  let ?w1 = "w\<lparr>clock := clock w + duration a, rx := ?rest, tx := tx w @ [reply cs a]\<rparr>"
  have wf: "well_formed (of_int (self_timeout self)) a"
    and rxw: "rx w = script a @ ?rest"
    using Cons.prems by simp_all
  have "\<exists>v'. read_loop cs self v w = read_loop cs self v' ?w1 \<and>
          (start_char_received v' \<longrightarrow> start_char v' = Some [STX])"
  proof (cases "bcc_valid cs (wire a)")
    case True
    with Cons.prems have "end_byte a = EOT" by simp
    from loop_ack [OF assms(1) Cons.prems(1) wf this True rxw] True
    show ?thesis by (auto simp: reply_def)
  next
    case False
    from loop_nack [OF assms(1) Cons.prems(1) wf False rxw] False
    show ?thesis by (auto simp: reply_def)
  qed
  then obtain v' where
    step: "read_loop cs self v w = read_loop cs self v' ?w1"
    and inv: "start_char_received v' \<longrightarrow> start_char v' = Some [STX]"
    by blast
  have "\<exists>v''. read_loop cs self v' ?w1 =
           read_loop cs self v''
             (?w1\<lparr>clock := clock ?w1 + sum_list (map duration as), rx := rest,
                  tx := tx ?w1 @ map (reply cs) as\<rparr>) \<and>
           (start_char_received v'' \<longrightarrow> start_char v'' = Some [STX])"
    using inv Cons.prems by (intro Cons.IH) simp_all
  with step show ?case by (auto simp: algebra_simps)
qed

section \<open>Operations on a closed resource\<close>

text \<open>
  C8. On both transports, send, receive and disconnect on a closed resource (handle
  \<^verbatim>\<open>None\<close>) raise the transport error, and so does \<open>switch_baudrate\<close> on a serial
  transport whose port is closed. \<open>switch_baudrate\<close> on a TCP transport returns, whatever
  the state of the socket, and leaves the transport and the world (clock, bytes to
  receive, bytes sent) as they were.
\<close>

theorem closed_resource_raises:
  "(closed self \<longrightarrow>
      send self data w = Raises TransportError w \<and>
      recv self n w = Raises TransportError w \<and>
      disconnect self w = Raises TransportError w) \<and>
   (port s = None \<longrightarrow> switch_baudrate (Serial s) baud w = Raises TransportError w) \<and>
   switch_baudrate (Tcp c) baud w = Returns (Tcp c) w"
  by (cases self)
     (simp_all add: serial_send_def serial_recv_def serial_disconnect_def
        serial_switch_baudrate_def tcp_send_def tcp_recv_def tcp_disconnect_def
        tcp_switch_baudrate_def)

theorem closed_resource_raises_witness:
  "closed (Tcp (tcp_closed 30)) \<and> port (serial_closed 10) = None \<and>
   send (Tcp (tcp_closed 30)) [0x06] \<lparr>clock = 0, rx = [], tx = []\<rparr>
     = Raises TransportError \<lparr>clock = 0, rx = [], tx = []\<rparr> \<and>
   recv (Tcp (tcp_closed 30)) 1 \<lparr>clock = 0, rx = [], tx = []\<rparr>
     = Raises TransportError \<lparr>clock = 0, rx = [], tx = []\<rparr> \<and>
   disconnect (Tcp (tcp_closed 30)) \<lparr>clock = 0, rx = [], tx = []\<rparr>
     = Raises TransportError \<lparr>clock = 0, rx = [], tx = []\<rparr> \<and>
   switch_baudrate (Serial (serial_closed 10)) 9600 \<lparr>clock = 0, rx = [], tx = []\<rparr>
     = Raises TransportError \<lparr>clock = 0, rx = [], tx = []\<rparr> \<and>
   switch_baudrate (Tcp (tcp_open 30)) 9600 \<lparr>clock = 0, rx = [], tx = []\<rparr>
     = Returns (Tcp (tcp_open 30)) \<lparr>clock = 0, rx = [], tx = []\<rparr>"
  using closed_resource_raises [of "Tcp (tcp_closed 30)" "[0x06]"
          "\<lparr>clock = 0, rx = [], tx = []\<rparr>" 1 "serial_closed 10" 9600 "tcp_open 30"]
  by (simp add: tcp_closed_def tcp_open_def tcp_init_def serial_closed_def)

section \<open>Single blocks\<close>

text \<open>
  C3, as the claim states it, fails: for the single block STX \<open>a\<close> ETX with its block
  check byte 60 the read does not return the bare payload \<open>a\<close>; it returns the four bytes
  as they came.
\<close>

theorem read_single_block_not_bare_payload:
  "read std (serial_open 10) None
     \<lparr>clock = 0, rx = arrive [(1, STX), (1, 0x61), (1, ETX), (1, 0x60)], tx = []\<rparr>
   = Returns [STX, 0x61, ETX, 0x60] \<lparr>clock = 4, rx = [], tx = []\<rparr> \<and>
   read std (serial_open 10) None
     \<lparr>clock = 0, rx = arrive [(1, STX), (1, 0x61), (1, ETX), (1, 0x60)], tx = []\<rparr>
   \<noteq> Returns [0x61] \<lparr>clock = 4, rx = [], tx = []\<rparr>"
  by (simp add: run_defs)

text \<open>
  C3, amended. For every valid single-block message (STX, a payload without end bytes,
  ETX, and a block check byte that \<open>bcc_valid\<close> accepts) arriving in time on an open
  transport, the read returns the block as it came: STX, payload, ETX and block check
  byte. Nothing is sent, and nothing after the block check byte is consumed.
\<close>

theorem read_single_block_verbatim:
  assumes "\<not> closed self"
    and "well_formed (of_int (self_timeout self)) b"
    and "end_byte b = ETX" and "bcc_valid cs (wire b)"
    and "rx w = script b @ rest"
  shows "read cs self tmo w =
         Returns (STX # payload b @ [ETX, bcc b])
                 (w\<lparr>clock := clock w + duration b, rx := rest\<rparr>)"
  unfolding read_def Let_def
  by (subst loop_final [OF assms(1) _ assms(2,3,4,5)]) (simp_all add: wire_def assms(3))

theorem read_single_block_verbatim_witness:
  "\<not> closed (serial_open 10) \<and>
   well_formed 10 (steady_block 1 [0x61] ETX 0x60) \<and>
   bcc_valid std (wire (steady_block 1 [0x61] ETX 0x60)) \<and>
   read std (serial_open 10) None
     \<lparr>clock = 0, rx = script (steady_block 1 [0x61] ETX 0x60) @ [(5, Data [0x62])], tx = []\<rparr>
   = Returns [STX, 0x61, ETX, 0x60] \<lparr>clock = 4, rx = [(5, Data [0x62])], tx = []\<rparr>"
  using read_single_block_verbatim [of "serial_open 10" "steady_block 1 [0x61] ETX 0x60" std
          "\<lparr>clock = 0, rx = script (steady_block 1 [0x61] ETX 0x60) @ [(5, Data [0x62])],
            tx = []\<rparr>" "[(5, Data [0x62])]" None]
  by (simp add: block_defs std_def spec_bcc_valid_def calculate_bcc_def serial_open_def)




section \<open>Messages of several blocks\<close>

text \<open>
  C1. For every valid multi-block message (one or more partial blocks ending in EOT, then
  a final block ending in ETX, each with a block check byte that \<open>bcc_valid\<close> accepts)
  arriving in time on an open transport, the read returns STX, then the payload of each
  partial block followed by the line end bytes, then the payload of the final block and
  ETX, closed by the block check that \<open>add_bcc\<close> computes over all of it. One ACK is
  sent per partial block. When \<open>bcc_valid\<close> accepts what \<open>add_bcc\<close> produces, the
  returned buffer is valid as a whole.
\<close>

theorem read_multi_block:
  assumes "\<not> closed self"
    and "\<forall>p \<in> set (p1 # ps). well_formed (of_int (self_timeout self)) p \<and>
           end_byte p = EOT \<and> bcc_valid cs (wire p)"
    and "well_formed (of_int (self_timeout self)) fin"
    and "end_byte fin = ETX" and "bcc_valid cs (wire fin)"
    and "rx w = concat (map script (p1 # ps)) @ script fin @ rest"
    and "\<forall>xs. bcc_valid cs (add_bcc cs xs)"
  shows "read cs self tmo w =
         Returns (add_bcc cs (STX # concat (map (\<lambda>p. payload p @ LINE_END cs) (p1 # ps))
                              @ payload fin @ [ETX]))
                 (w\<lparr>clock := clock w + sum_list (map duration (p1 # ps)) + duration fin,
                    rx := rest, tx := tx w @ replicate (length (p1 # ps)) (ACK cs)\<rparr>) \<and>
         bcc_valid cs (add_bcc cs (STX # concat (map (\<lambda>p. payload p @ LINE_END cs) (p1 # ps))
                              @ payload fin @ [ETX]))"
proof -
  let ?v0 = "\<lparr>total_data = [], packets = 0, start_char_received = False, start_char = None,
              end_char = None, in_data = [], start_time = 0\<rparr>"
  let ?w1 = "w\<lparr>clock := clock w + duration p1,
                rx := concat (map script ps) @ script fin @ rest,
                tx := tx w @ [ACK cs]\<rparr>"
  have "\<exists>v'. read_loop cs self ?v0 w = read_loop cs self v' ?w1 \<and>
         start_char_received v' \<and> start_char v' = Some [STX] \<and>
         packets v' = packets ?v0 + 1 \<and>
         total_data v' = total_data ?v0 @
           (if packets ?v0 + 1 > 1 then payload p1 @ LINE_END cs
            else STX # payload p1 @ LINE_END cs)"
    using assms by (intro loop_ack) simp_all
  then obtain v' where step: "read_loop cs self ?v0 w = read_loop cs self v' ?w1"
    and v': "start_char_received v'" "start_char v' = Some [STX]" "packets v' = 1"
      "total_data v' = STX # payload p1 @ LINE_END cs"
    by auto
  have "read_loop cs self v' ?w1 =
        Returns (add_bcc cs (total_data v' @ concat (map (\<lambda>p. payload p @ LINE_END cs) ps)
                              @ payload fin @ [ETX]))
                (?w1\<lparr>clock := clock ?w1 + sum_list (map duration ps) + duration fin,
                     rx := rest, tx := tx ?w1 @ replicate (length ps) (ACK cs)\<rparr>)"
    using v' assms by (intro later_blocks) simp_all
  with step v' assms(7) show ?thesis by (simp add: read_def algebra_simps)
qed

theorem read_multi_block_witness:
  "\<not> closed (serial_open 10) \<and>
   well_formed 10 (steady_block 1 [0x61] EOT 0x67) \<and>
   bcc_valid std (wire (steady_block 1 [0x61] EOT 0x67)) \<and>
   well_formed 10 (steady_block 1 [0x62] EOT 0x64) \<and>
   bcc_valid std (wire (steady_block 1 [0x62] EOT 0x64)) \<and>
   well_formed 10 (steady_block 1 [0x63] ETX 0x62) \<and>
   bcc_valid std (wire (steady_block 1 [0x63] ETX 0x62)) \<and>
   read std (serial_open 10) None
     \<lparr>clock = 0,
      rx = script (steady_block 1 [0x61] EOT 0x67) @ script (steady_block 1 [0x62] EOT 0x64)
           @ script (steady_block 1 [0x63] ETX 0x62),
      tx = []\<rparr>
   = Returns [STX, 0x61, 0x0D, 0x0A, 0x62, 0x0D, 0x0A, 0x63, ETX, 0x61]
       \<lparr>clock = 12, rx = [], tx = [[0x06], [0x06]]\<rparr> \<and>
   bcc_valid std [STX, 0x61, 0x0D, 0x0A, 0x62, 0x0D, 0x0A, 0x63, ETX, 0x61]"
  using read_multi_block [of "serial_open 10" "steady_block 1 [0x61] EOT 0x67"
          "[steady_block 1 [0x62] EOT 0x64]" std "steady_block 1 [0x63] ETX 0x62"
          "\<lparr>clock = 0,
            rx = script (steady_block 1 [0x61] EOT 0x67)
                 @ script (steady_block 1 [0x62] EOT 0x64)
                 @ script (steady_block 1 [0x63] ETX 0x62),
            tx = []\<rparr>" "[]" None]
        std_accepts_own_bcc
  by (simp add: block_defs std_def spec_bcc_valid_def spec_add_bcc_def calculate_bcc_def
        serial_open_def)

text \<open>
  C2 fails on the code. Let the only block of a message arrive first with a block check
  byte that \<open>bcc_valid\<close> rejects and then again with one it accepts. One NACK is sent
  and the block is read again, but the rejected attempt has already been counted in
  \<open>packets\<close>: the retransmitted block is taken for a second block, loses its STX and gets
  a new block check. What is returned is \<open>add_bcc\<close> of the payload and ETX, not the
  block STX, payload, ETX, block check byte that is returned when nothing is corrupted.
\<close>

theorem read_nack_retry_counts_as_block:
  assumes "\<not> closed self"
    and "well_formed (of_int (self_timeout self)) bad"
    and "\<not> bcc_valid cs (wire bad)"
    and "well_formed (of_int (self_timeout self)) good"
    and "end_byte good = ETX" and "bcc_valid cs (wire good)"
    and "rx w = script bad @ script good @ rest"
  shows "read cs self tmo w =
         Returns (add_bcc cs (payload good @ [ETX]))
                 (w\<lparr>clock := clock w + duration bad + duration good, rx := rest,
                    tx := tx w @ [NACK cs]\<rparr>)"
proof -
  let ?v0 = "\<lparr>total_data = [], packets = 0, start_char_received = False, start_char = None,
              end_char = None, in_data = [], start_time = 0\<rparr>"
  let ?w1 = "w\<lparr>clock := clock w + duration bad, rx := script good @ rest,
                tx := tx w @ [NACK cs]\<rparr>"
  have "\<exists>v'. read_loop cs self ?v0 w = read_loop cs self v' ?w1 \<and>
         start_char_received v' \<and> start_char v' = Some [STX] \<and>
         total_data v' = total_data ?v0 \<and> packets v' = packets ?v0 + 1"
    using assms by (intro loop_nack) simp_all
  then obtain v' where step: "read_loop cs self ?v0 w = read_loop cs self v' ?w1"
    and v': "start_char_received v'" "start_char v' = Some [STX]"
      "total_data v' = []" "packets v' = 1"
    by auto
  have "read_loop cs self v' ?w1 =
        Returns (if packets v' + 1 > 1
                 then add_bcc cs (total_data v' @ payload good @ [ETX])
                 else total_data v' @ wire good)
                (?w1\<lparr>clock := clock ?w1 + duration good, rx := rest\<rparr>)"
    using v' assms by (intro loop_final) simp_all
  with step v' show ?thesis by (simp add: read_def)
qed

theorem read_nack_retry_counts_as_block_witness:
  "\<not> closed (serial_open 10) \<and>
   well_formed 10 (steady_block 1 [0x61] ETX 0x00) \<and>
   \<not> bcc_valid std (wire (steady_block 1 [0x61] ETX 0x00)) \<and>
   well_formed 10 (steady_block 1 [0x61] ETX 0x60) \<and>
   bcc_valid std (wire (steady_block 1 [0x61] ETX 0x60)) \<and>
   read std (serial_open 10) None
     \<lparr>clock = 0, rx = arrive [(1, STX), (1, 0x61), (1, ETX), (1, 0x00),
                              (1, STX), (1, 0x61), (1, ETX), (1, 0x60)], tx = []\<rparr>
   = Returns [0x61, ETX, 0x62] \<lparr>clock = 8, rx = [], tx = [[0x15]]\<rparr> \<and>
   read std (serial_open 10) None
     \<lparr>clock = 0, rx = arrive [(1, STX), (1, 0x61), (1, ETX), (1, 0x60)], tx = []\<rparr>
   = Returns [STX, 0x61, ETX, 0x60] \<lparr>clock = 4, rx = [], tx = []\<rparr>"
proof -
  have clean: "read std (serial_open 10) None
     \<lparr>clock = 0, rx = arrive [(1, STX), (1, 0x61), (1, ETX), (1, 0x60)], tx = []\<rparr>
   = Returns [STX, 0x61, ETX, 0x60] \<lparr>clock = 4, rx = [], tx = []\<rparr>"
    by (simp add: run_defs)
  show ?thesis
    using read_nack_retry_counts_as_block [of "serial_open 10"
            "steady_block 1 [0x61] ETX 0x00" std "steady_block 1 [0x61] ETX 0x60"
            "\<lparr>clock = 0, rx = arrive [(1, STX), (1, 0x61), (1, ETX), (1, 0x00),
                                     (1, STX), (1, 0x61), (1, ETX), (1, 0x60)], tx = []\<rparr>"
            "[]" None] clean
    by (simp add: block_defs std_def spec_bcc_valid_def spec_add_bcc_def calculate_bcc_def
          serial_open_def arrive_def)
qed

text \<open>
  C4 fails on the code: \<open>start_char_received\<close> is set by the first start byte of the call
  and never cleared. In the first run a byte \<open>x\<close> arrives between a partial block and the
  final block: it is not dropped but taken into the block, which is then rejected (NACK)
  and read again. In the second run the second block begins with SOH: the recorded start
  byte stays STX, so the block is checked, acknowledged as data and stripped of its first
  byte like any later block.
\<close>

theorem read_later_block_no_start_detection:
  "read std (serial_open 10) None
     \<lparr>clock = 0, rx = arrive [(1, STX), (1, 0x61), (1, EOT), (1, 0x67),
                              (1, 0x78),
                              (1, STX), (1, 0x62), (1, ETX), (1, 0x63),
                              (1, STX), (1, 0x62), (1, ETX), (1, 0x63)], tx = []\<rparr>
   = Returns [STX, 0x61, 0x0D, 0x0A, 0x62, ETX, 0x05]
       \<lparr>clock = 13, rx = [], tx = [[0x06], [0x15]]\<rparr> \<and>
   read std (serial_open 10) None
     \<lparr>clock = 0, rx = arrive [(1, STX), (1, 0x61), (1, EOT), (1, 0x67),
                              (1, SOH), (1, 0x62), (1, ETX), (1, 0x60)], tx = []\<rparr>
   = Returns [STX, 0x61, 0x0D, 0x0A, 0x62, ETX, 0x05]
       \<lparr>clock = 8, rx = [], tx = [[0x06]]\<rparr>"
  by (simp add: run_defs)

section \<open>Timeouts\<close>

text \<open>
  C5 fails on the code: the override is stored in a local variable that is never read,
  and the comparison uses \<^verbatim>\<open>self.timeout\<close>. Whatever override is passed, \<open>read\<close> and
  \<open>simple_read\<close> do what they do without one. With a configured timeout of 10 and an
  override of 60, a first byte that arrives after 45 makes both raise the timeout error.
\<close>

theorem read_timeout_override_ignored:
  "read cs self tmo w = read cs self None w \<and>
   simple_read cs self start_c end_c tmo w = simple_read cs self start_c end_c None w \<and>
   read std (serial_open 10) (Some 60)
     \<lparr>clock = 0, rx = arrive [(45, STX), (1, 0x61), (1, ETX), (1, 0x60)], tx = []\<rparr>
   = Raises TimeoutError
       \<lparr>clock = 45, rx = arrive [(1, 0x61), (1, ETX), (1, 0x60)], tx = []\<rparr> \<and>
   simple_read std (serial_open 10) (Str ''/'') (Str ''!'') (Some 60)
     \<lparr>clock = 0, rx = arrive [(45, 0x2F), (1, 0x61), (1, 0x21)], tx = []\<rparr>
   = Raises TimeoutError
       \<lparr>clock = 45, rx = arrive [(1, 0x61), (1, 0x21)], tx = []\<rparr>"
proof -
  have "read cs self tmo w = read cs self None w"
    by (simp add: read_def)
  moreover have "simple_read cs self start_c end_c tmo w
                 = simple_read cs self start_c end_c None w"
    by (simp add: simple_read_def)
  moreover have "read std (serial_open 10) (Some 60)
     \<lparr>clock = 0, rx = arrive [(45, STX), (1, 0x61), (1, ETX), (1, 0x60)], tx = []\<rparr>
   = Raises TimeoutError
       \<lparr>clock = 45, rx = arrive [(1, 0x61), (1, ETX), (1, 0x60)], tx = []\<rparr>"
    by (simp add: run_defs)
  moreover have "simple_read std (serial_open 10) (Str ''/'') (Str ''!'') (Some 60)
     \<lparr>clock = 0, rx = arrive [(45, 0x2F), (1, 0x61), (1, 0x21)], tx = []\<rparr>
   = Raises TimeoutError
       \<lparr>clock = 45, rx = arrive [(1, 0x61), (1, 0x21)], tx = []\<rparr>"
    by (simp add: run_defs)
  ultimately show ?thesis by blast
qed

text \<open>
  C7, as the claim states it, fails. On a TCP transport a silent line ends in the
  socket's own timeout: the receive call raises and the read fails with the transport
  error, not with the timeout error. And a call can return a message that is not
  complete: after SOH, \<open>R\<close>, ETX the read for the block check byte hands back nothing, and
  the three bytes are returned.
\<close>

theorem read_silent_tcp_line_transport_error:
  "read std (Tcp (tcp_open 30)) None \<lparr>clock = 0, rx = [(30, Fails)], tx = []\<rparr>
   = Raises TransportError \<lparr>clock = 30, rx = [], tx = []\<rparr> \<and>
   read std (Tcp (tcp_open 30)) None \<lparr>clock = 0, rx = [(30, Fails)], tx = []\<rparr>
   \<noteq> Raises TimeoutError \<lparr>clock = 30, rx = [], tx = []\<rparr> \<and>
   read std (serial_open 10) None
     \<lparr>clock = 0, rx = arrive [(1, SOH), (1, 0x52), (1, ETX)] @ [(5, Data [])], tx = []\<rparr>
   = Returns [SOH, 0x52, ETX] \<lparr>clock = 8, rx = [], tx = []\<rparr>"
  by (simp add: run_defs tcp_run_defs)

text \<open>
  C7, amended. On an open transport, let no read hand back a byte of the start set until
  a read either returns later than the configured timeout after the call began, or
  raises. Then the call sends nothing and returns no data: it raises the timeout error in
  the first case, and in the second the error of the receive call, which is the
  transport error on a TCP transport.
\<close>

theorem read_no_start_byte_raises:
  assumes "\<not> closed self"
    and "\<forall>p \<in> set jk. take 1 (snd p) \<notin> set start_chars"
    and "in_time (of_int (self_timeout self)) (map fst jk)"
    and "r \<noteq> Fails \<longrightarrow> of_int (self_timeout self) < sum_list (map fst jk) + d"
    and "rx w = hand_back jk @ (d, r) # rest"
  shows "read cs self tmo w =
         Raises (case r of Data bs \<Rightarrow> TimeoutError | Fails \<Rightarrow> recv_failure self)
                (w\<lparr>clock := clock w + sum_list (map fst jk) + d, rx := rest\<rparr>)"
proof -
  let ?v0 = "\<lparr>total_data = [], packets = 0, start_char_received = False, start_char = None,
              end_char = None, in_data = [], start_time = clock w\<rparr>"
  let ?wj = "w\<lparr>clock := clock w + sum_list (map fst jk), rx := (d, r) # rest\<rparr>"
  let ?e = "case r of Data bs \<Rightarrow> TimeoutError | Fails \<Rightarrow> recv_failure self"
  have t1: "in_time (of_int (self_timeout self) - (clock w - start_time ?v0)) (map fst jk)"
    using assms(3) by simp
  have "read_block self ?v0 w = read_block self ?v0 ?wj"
    using assms(1,2,5) t1 by (intro read_block_skip) simp_all
  also have "\<dots> = Raises ?e (?wj\<lparr>clock := clock ?wj + d, rx := rest\<rparr>)"
  proof (cases r)
    case (Data bs)
    with assms(1,4) show ?thesis
      by (subst read_block.simps) (simp add: recv_open)
  next
    case Fails
    with assms(1) show ?thesis
      by (subst read_block.simps) (simp add: recv_fails)
  qed
  finally have rb: "read_block self ?v0 w =
                    Raises ?e (?wj\<lparr>clock := clock ?wj + d, rx := rest\<rparr>)" .
  show ?thesis
    unfolding read_def Let_def using rb
    by (subst read_loop.simps) simp
qed

theorem read_no_start_byte_raises_witness:
  "\<not> closed (Tcp (tcp_open 30)) \<and>
   in_time 30 [10, 15] \<and> (30::rat) < 10 + 15 + 6 \<and>
   read std (Tcp (tcp_open 30)) None
     \<lparr>clock = 100, rx = hand_back [(10, [0x78]), (15, [])] @ (6, Data [STX]) # [], tx = []\<rparr>
   = Raises TimeoutError \<lparr>clock = 131, rx = [], tx = []\<rparr> \<and>
   read std (Tcp (tcp_open 30)) None
     \<lparr>clock = 100, rx = hand_back [(10, [0x78])] @ (30, Fails) # [], tx = []\<rparr>
   = Raises TransportError \<lparr>clock = 140, rx = [], tx = []\<rparr>"
  using read_no_start_byte_raises [of "Tcp (tcp_open 30)" "[(10, [0x78]), (15, [])]" "Data [STX]" 6
          "\<lparr>clock = 100, rx = hand_back [(10, [0x78]), (15, [])] @ (6, Data [STX]) # [],
            tx = []\<rparr>" "[]" std None]
        read_no_start_byte_raises [of "Tcp (tcp_open 30)" "[(10, [0x78])]" Fails 30
          "\<lparr>clock = 100, rx = hand_back [(10, [0x78])] @ (30, Fails) # [],
            tx = []\<rparr>" "[]" std None]
  by (simp add: tcp_open_def tcp_init_def start_chars_def)

text \<open>
  C10. The elapsed time is measured from the beginning of each block attempt. Let any
  number of attempts be rejected (NACK) or be accepted partial blocks, each arriving
  within the configured timeout of its own first read; the wait for a block check byte
  is not timed at all. If a valid final block follows in the same way, the read returns,
  however long the attempts took together: the clock at the return is the clock at the
  call plus the durations of all attempts, which with n attempts of the full timeout each
  is n times the timeout. If instead the bytes that follow contain no end byte and one of
  them is read later than the timeout after the first read of that attempt began, the
  read raises the timeout error at that byte, however little time the attempts before
  took. So the timeout bounds each block attempt, and nothing else.
\<close>

theorem read_timeout_restarts_per_block:
  assumes "\<not> closed self"
    and "\<forall>a \<in> set as. well_formed (of_int (self_timeout self)) a \<and>
           (\<not> bcc_valid cs (wire a) \<or> end_byte a = EOT)"
  shows "(well_formed (of_int (self_timeout self)) fin \<and> end_byte fin = ETX \<and>
          bcc_valid cs (wire fin) \<and>
          rx w = concat (map script as) @ script fin @ rest \<longrightarrow>
          (\<exists>msg. read cs self tmo w =
             Returns msg
               (w\<lparr>clock := clock w + sum_list (map duration as) + duration fin,
                  rx := rest, tx := tx w @ map (reply cs) as\<rparr>))) \<and>
         ((\<forall>x \<in> set (map snd tb). x \<noteq> ETX \<and> x \<noteq> EOT) \<and>
          in_time (of_int (self_timeout self)) (map fst tb) \<and>
          of_int (self_timeout self) < sum_list (map fst tb) + d \<and>
          rx w = concat (map script as) @ arrive tb @ (d, Data bs) # rest \<longrightarrow>
          read cs self tmo w =
            Raises TimeoutError
              (w\<lparr>clock := clock w + sum_list (map duration as) + sum_list (map fst tb) + d,
                 rx := rest, tx := tx w @ map (reply cs) as\<rparr>))"
proof (intro conjI impI)
  let ?v0 = "\<lparr>total_data = [], packets = 0, start_char_received = False, start_char = None,
              end_char = None, in_data = [], start_time = 0\<rparr>"
  assume fin: "well_formed (of_int (self_timeout self)) fin \<and> end_byte fin = ETX \<and>
          bcc_valid cs (wire fin) \<and>
          rx w = concat (map script as) @ script fin @ rest"
  let ?w1 = "w\<lparr>clock := clock w + sum_list (map duration as), rx := script fin @ rest,
                tx := tx w @ map (reply cs) as\<rparr>"
  have "\<exists>v'. read_loop cs self ?v0 w = read_loop cs self v' ?w1 \<and>
           (start_char_received v' \<longrightarrow> start_char v' = Some [STX])"
    using assms fin by (intro attempts_pass) simp_all
  then obtain v' where step: "read_loop cs self ?v0 w = read_loop cs self v' ?w1"
    and inv: "start_char_received v' \<longrightarrow> start_char v' = Some [STX]"
    by blast
  have "read_loop cs self v' ?w1 =
        Returns (if packets v' + 1 > 1
                 then add_bcc cs (total_data v' @ payload fin @ [ETX])
                 else total_data v' @ wire fin)
                (?w1\<lparr>clock := clock ?w1 + duration fin, rx := rest\<rparr>)"
    using assms(1) inv fin by (intro loop_final) simp_all
  with step show "\<exists>msg. read cs self tmo w =
             Returns msg
               (w\<lparr>clock := clock w + sum_list (map duration as) + duration fin,
                  rx := rest, tx := tx w @ map (reply cs) as\<rparr>)"
    by (simp add: read_def)
next
  let ?v0 = "\<lparr>total_data = [], packets = 0, start_char_received = False, start_char = None,
              end_char = None, in_data = [], start_time = 0\<rparr>"
  assume late: "(\<forall>x \<in> set (map snd tb). x \<noteq> ETX \<and> x \<noteq> EOT) \<and>
          in_time (of_int (self_timeout self)) (map fst tb) \<and>
          of_int (self_timeout self) < sum_list (map fst tb) + d \<and>
          rx w = concat (map script as) @ arrive tb @ (d, Data bs) # rest"
  let ?w1 = "w\<lparr>clock := clock w + sum_list (map duration as),
                rx := arrive tb @ (d, Data bs) # rest,
                tx := tx w @ map (reply cs) as\<rparr>"
  have "\<exists>v'. read_loop cs self ?v0 w = read_loop cs self v' ?w1 \<and>
           (start_char_received v' \<longrightarrow> start_char v' = Some [STX])"
    using assms late by (intro attempts_pass) simp_all
  then obtain v' where step: "read_loop cs self ?v0 w = read_loop cs self v' ?w1"
    by blast
  let ?v1 = "v'\<lparr>in_data := [], start_time := clock ?w1\<rparr>"
  have "read_block self ?v1 ?w1 =
        Raises TimeoutError (?w1\<lparr>clock := clock ?w1 + sum_list (map fst tb) + d, rx := rest\<rparr>)"
    using assms(1) late by (intro read_block_late) simp_all
  then have "read_loop cs self v' ?w1 =
        Raises TimeoutError (?w1\<lparr>clock := clock ?w1 + sum_list (map fst tb) + d, rx := rest\<rparr>)"
    by (subst read_loop.simps) simp
  with step show "read cs self tmo w =
            Raises TimeoutError
              (w\<lparr>clock := clock w + sum_list (map duration as) + sum_list (map fst tb) + d,
                 rx := rest, tx := tx w @ map (reply cs) as\<rparr>)"
    by (simp add: read_def)
qed


theorem read_timeout_restarts_per_block_witness:
  "\<not> closed (serial_open 10) \<and>
   well_formed 10 \<lparr>stx_wait = 10, content = [(0, 0x61)], end_wait = 0, end_byte = ETX,
                   bcc_wait = 0, bcc = 0x00\<rparr> \<and>
   \<not> bcc_valid std (wire \<lparr>stx_wait = 10, content = [(0, 0x61)], end_wait = 0,
                           end_byte = ETX, bcc_wait = 0, bcc = 0x00\<rparr>) \<and>
   well_formed 10 \<lparr>stx_wait = 4, content = [(3, 0x61)], end_wait = 3, end_byte = EOT,
                   bcc_wait = 0, bcc = 0x67\<rparr> \<and>
   bcc_valid std (wire \<lparr>stx_wait = 4, content = [(3, 0x61)], end_wait = 3,
                         end_byte = EOT, bcc_wait = 0, bcc = 0x67\<rparr>) \<and>
   well_formed 10 \<lparr>stx_wait = 0, content = [(0, 0x62)], end_wait = 10, end_byte = ETX,
                   bcc_wait = 0, bcc = 0x63\<rparr> \<and>
   (\<exists>msg.
      read std (serial_open 10) None
        \<lparr>clock = 0,
         rx = arrive [(10, STX), (0, 0x61), (0, ETX), (0, 0x00),
                      (4, STX), (3, 0x61), (3, EOT), (0, 0x67),
                      (0, STX), (0, 0x62), (10, ETX), (0, 0x63)],
         tx = []\<rparr>
      = Returns msg \<lparr>clock = 3 * 10, rx = [], tx = [[0x15], [0x06]]\<rparr>) \<and>
   in_time 10 [0, 10] \<and> (10::rat) < 0 + 10 + 1 \<and>
   read std (serial_open 10) None
     \<lparr>clock = 0,
      rx = arrive [(10, STX), (0, 0x61), (0, ETX), (0, 0x00),
                   (4, STX), (3, 0x61), (3, EOT), (0, 0x67),
                   (0, STX), (10, 0x62), (1, ETX), (0, 0x63)],
      tx = []\<rparr>
   = Raises TimeoutError
       \<lparr>clock = 31, rx = [(0, Data [0x63])], tx = [[0x15], [0x06]]\<rparr>"
  using read_timeout_restarts_per_block [where self = "serial_open 10" and cs = std and tmo = None
          and as = "[\<lparr>stx_wait = 10, content = [(0, 0x61)], end_wait = 0, end_byte = ETX,
                      bcc_wait = 0, bcc = 0x00\<rparr>,
                     \<lparr>stx_wait = 4, content = [(3, 0x61)], end_wait = 3, end_byte = EOT,
                      bcc_wait = 0, bcc = 0x67\<rparr>]"
          and fin = "\<lparr>stx_wait = 0, content = [(0, 0x62)], end_wait = 10, end_byte = ETX,
                      bcc_wait = 0, bcc = 0x63\<rparr>"
          and w = "\<lparr>clock = 0,
                    rx = arrive [(10, STX), (0, 0x61), (0, ETX), (0, 0x00),
                                 (4, STX), (3, 0x61), (3, EOT), (0, 0x67),
                                 (0, STX), (0, 0x62), (10, ETX), (0, 0x63)],
                    tx = []\<rparr>"
          and rest = "[]" and tb = "[]" and d = 0 and bs = "[]"]
        read_timeout_restarts_per_block [where self = "serial_open 10" and cs = std and tmo = None
          and as = "[\<lparr>stx_wait = 10, content = [(0, 0x61)], end_wait = 0, end_byte = ETX,
                      bcc_wait = 0, bcc = 0x00\<rparr>,
                     \<lparr>stx_wait = 4, content = [(3, 0x61)], end_wait = 3, end_byte = EOT,
                      bcc_wait = 0, bcc = 0x67\<rparr>]"
          and fin = "\<lparr>stx_wait = 0, content = [], end_wait = 0, end_byte = ETX,
                      bcc_wait = 0, bcc = 0x00\<rparr>"
          and w = "\<lparr>clock = 0,
                    rx = arrive [(10, STX), (0, 0x61), (0, ETX), (0, 0x00),
                                 (4, STX), (3, 0x61), (3, EOT), (0, 0x67),
                                 (0, STX), (10, 0x62), (1, ETX), (0, 0x63)],
                    tx = []\<rparr>"
          and rest = "[(0, Data [0x63])]" and tb = "[(0, STX), (10, 0x62)]" and d = 1
          and bs = "[ETX]"]
  by (simp add: block_defs reply_def std_def spec_bcc_valid_def calculate_bcc_def
        serial_open_def arrive_def)

section \<open>The delimiter reader on a concrete stream\<close>

text \<open>
  C9. \<open>simple_read\<close> with start \<open>/\<close> and end \<open>!\<close> on the incoming bytes
  \<open>junk/hello!more\<close> returns \<open>/hello!\<close>: the bytes before the start byte are dropped, the
  bytes up to and including the end byte are returned, and the four bytes after it are
  still to be read.
\<close>

theorem simple_read_junk_hello_more:
  "simple_read std (serial_open 30) (Str ''/'') (Str ''!'') None
     \<lparr>clock = 0, rx = arrive (map (Pair 1) (map of_char ''junk/hello!more'')), tx = []\<rparr>
   = Returns (map of_char ''/hello!'')
       \<lparr>clock = 11, rx = arrive (map (Pair 1) (map of_char ''more'')), tx = []\<rparr>"
  by (simp add: run_defs)

end
